theory Spec2Isabelle
  imports Main
begin

section \<open>The op-test planner (src/op-test/planner.go)\<close>

text \<open>
  The planner runs a test body once along a default path and then once more for every
  other option of the parameter the body discovered. This theory embeds the functions
  of \<^verbatim>\<open>planner.go\<close>: \<^verbatim>\<open>Parameter\<close>, \<^verbatim>\<open>selected\<close>, \<^verbatim>\<open>Select\<close>, \<^verbatim>\<open>exhaust\<close>,
  \<^verbatim>\<open>planCtx\<close>, the methods \<^verbatim>\<open>Plan\<close> and \<^verbatim>\<open>Run\<close> and the package function \<^verbatim>\<open>Plan\<close>.
\<close>

subsection \<open>Contexts\<close>

text \<open>
  A Go \<^verbatim>\<open>context.Context\<close> is a chain of key/value pairs, the newest first;
  \<^verbatim>\<open>Value\<close> returns the value of the nearest pair with the key and \<^verbatim>\<open>nil\<close> when
  there is none. The planner uses two kinds of keys: \<^verbatim>\<open>parameterCtxKey(name)\<close> and
  \<^verbatim>\<open>parameterManagerCtxKey{}\<close>. Cancellation is not modelled.
\<close>

datatype ctxKey = parameterCtxKey string | parameterManagerCtxKey

text \<open>
  Modelled from the spec: the interface \<^verbatim>\<open>ParameterSelector\<close> is declared outside
  \<^verbatim>\<open>planner.go\<close>. The spec gives its one method,
  \<^verbatim>\<open>Select(name string, options []string) []string\<close>, a pure policy function.
\<close>

type_synonym ParameterSelector = "string \<Rightarrow> string list \<Rightarrow> string list"

text \<open>
  The values of Go's \<^verbatim>\<open>any\<close> that the planner stores in a context or reads from it:
  \<^verbatim>\<open>nil\<close>, a string, or a non-nil selector.
\<close>

datatype anyVal = NilVal | StringVal string | SelectorVal ParameterSelector

type_synonym Context = "(ctxKey \<times> anyVal) list"

definition Background :: Context where
  "Background = []"

definition WithValue :: "Context \<Rightarrow> ctxKey \<Rightarrow> anyVal \<Rightarrow> Context" where
  "WithValue c k v = (k, v) # c"

definition WithCancel :: "Context \<Rightarrow> Context" where
  "WithCancel c = c"

fun Value :: "Context \<Rightarrow> ctxKey \<Rightarrow> anyVal" where
  "Value [] k = NilVal"
| "Value ((k', v) # c) k = (if k' = k then v else Value c k)"

subsection \<open>Scopes\<close>

record parameterSelection =
  name :: string
  options :: "string list"

text \<open>
  \<^verbatim>\<open>testImpl\<close>: the fields the planner's control flow reads and writes. The embedded
  \<^verbatim>\<open>*testing.T\<close> appears as the way a call ends (see \<open>abort\<close>); the lock, the log level
  and the logger carry no parameter state and are left out.
\<close>

record testImpl =
  ctx :: Context
  parameterSelection :: "parameterSelection option"

text \<open>
  How a call cuts the running test function short: \<^verbatim>\<open>T.Fatalf\<close> marks the test failed
  and stops its goroutine, \<^verbatim>\<open>T.Skipf\<close> marks it skipped and stops it, and a failed
  type assertion panics.
\<close>

datatype abort = FailNow | SkipNow | Panic

definition Ctx :: "testImpl \<Rightarrow> Context" where
  "Ctx imp = ctx imp"

definition Parameter :: "testImpl \<Rightarrow> string \<Rightarrow> abort + (string \<times> bool)" where
  "Parameter imp nm =
     (case Value (Ctx imp) (parameterCtxKey nm) of
        NilVal \<Rightarrow> Inr ([], False)
      | StringVal v \<Rightarrow> Inr (v, True)
      | SelectorVal s \<Rightarrow> Inl Panic)"

definition selected :: "testImpl \<Rightarrow> string \<Rightarrow> string list \<Rightarrow> (abort + unit) \<times> testImpl" where
  "selected imp nm opts =
     (if length opts = 0 then (Inl FailNow, imp)
      else case Value (ctx imp) (parameterCtxKey nm) of
             StringVal cur \<Rightarrow> (Inl FailNow, imp)
           | SelectorVal s \<Rightarrow> (Inl Panic, imp)
           | NilVal \<Rightarrow>
               (Inr (),
                imp\<lparr>parameterSelection := Some \<lparr>name = nm, options = opts\<rparr>,
                    ctx := WithValue (ctx imp) (parameterCtxKey nm) (StringVal (opts ! 0))\<rparr>))"

definition Select :: "testImpl \<Rightarrow> string \<Rightarrow> string list \<Rightarrow> (abort + string) \<times> testImpl" where
  "Select imp nm opts =
     (let current = Value (ctx imp) (parameterCtxKey nm);
          hasWildcard = (''*'' \<in> set opts)
      in case current of
           StringVal cur \<Rightarrow>
             if \<not> hasWildcard \<and> cur \<notin> set opts then (Inl FailNow, imp)
             else (Inr cur, imp)
         | SelectorVal s \<Rightarrow> (Inl Panic, imp)
         | NilVal \<Rightarrow>
             (case Value (ctx imp) parameterManagerCtxKey of
                SelectorVal selector \<Rightarrow>
                  (let selectedOptions = selector nm opts in
                   if length selectedOptions = 0 then (Inl SkipNow, imp)
                   else if \<not> hasWildcard \<and> \<not> list_all (\<lambda>opt. opt \<in> set opts) selectedOptions
                   then (Inl FailNow, imp)
                   else (case selected imp nm selectedOptions of
                           (Inl a, imp') \<Rightarrow> (Inl a, imp')
                         | (Inr u, imp') \<Rightarrow> (Inr (selectedOptions ! 0), imp')))
              | NilVal \<Rightarrow> (Inl Panic, imp)
              | StringVal v \<Rightarrow> (Inl Panic, imp)))"

subsection \<open>Test bodies\<close>

text \<open>
  A test body is a Go closure \<^verbatim>\<open>func(t Planner)\<close>. What it can do to the planner is call
  the methods of its scope, in some order that may depend on what they return. The body
  is therefore a tree of calls: each node is one call on the body's own scope, with the
  rest of the body as a function of the value returned.
\<close>

datatype body =
    Return
  | CallSelect string "string list" "string \<Rightarrow> body"
  | CallParameter string "string \<times> bool \<Rightarrow> body"
  | CallCtx "Context \<Rightarrow> body"
  | CallPlan string body body
  | CallRun string body body

subsection \<open>The test-run primitive\<close>

text \<open>
  What a run leaves behind for an observer: a sub-test was started under a name, the
  body \<^verbatim>\<open>fn\<close> returned to the closure that called it (with the scope's context at that
  moment), and the sub-test's function ended, normally or cut short.
\<close>

datatype event =
    RunStart string
  | FnReturned Context
  | RunEnd string "abort + unit"

text \<open>
  The outcome of a call as its caller sees it: \<open>None\<close> when the call does not return
  within the nesting depth allowed, otherwise the events it produced and whether the
  caller goes on (\<open>Inr\<close>) or is itself cut short (\<open>Inl\<close>).
\<close>

type_synonym outcome = "(event list \<times> (abort + unit)) option"

type_synonym planfn = "Context \<Rightarrow> string \<Rightarrow> body \<Rightarrow> outcome"

text \<open>
  Modelled from the spec: \<^verbatim>\<open>testing.T.Run(name, f)\<close> is the external test-run primitive.
  It runs \<^verbatim>\<open>f\<close> as a named sub-test and blocks until it is complete. A sub-test that
  fails or is skipped does not stop its parent; a panic stops the whole process.
\<close>

definition T_Run :: "string \<Rightarrow> outcome \<Rightarrow> outcome" where
  "T_Run nm r =
     (case r of
        None \<Rightarrow> None
      | Some (evs, x) \<Rightarrow>
          Some (RunStart nm # evs @ [RunEnd nm x],
                (case x of Inl Panic \<Rightarrow> Inl Panic | Inl FailNow \<Rightarrow> Inr () | Inl SkipNow \<Rightarrow> Inr ()
                 | Inr u \<Rightarrow> Inr ())))"

text \<open>Two calls in sequence: the second is made only when the first lets its caller go on.\<close>

definition andThen :: "outcome \<Rightarrow> outcome \<Rightarrow> outcome" where
  "andThen r1 r2 =
     (case r1 of
        None \<Rightarrow> None
      | Some (evs, Inl a) \<Rightarrow> Some (evs, Inl a)
      | Some (evs, Inr u) \<Rightarrow>
          (case r2 of None \<Rightarrow> None | Some (evs', x) \<Rightarrow> Some (evs @ evs', x)))"

subsection \<open>Running a body, exhaustion and planning\<close>

text \<open>
  \<^verbatim>\<open>exhaust\<close>: the loop over the recorded options. The context is read once before the
  loop; the key's value is looked up in every iteration.
\<close>

fun exhaust_loop :: "planfn \<Rightarrow> Context \<Rightarrow> parameterSelection \<Rightarrow> body \<Rightarrow> string list \<Rightarrow> outcome" where
  "exhaust_loop pc c sel fn [] = Some ([], Inr ())"
| "exhaust_loop pc c sel fn (opt # rest) =
     (let key = parameterCtxKey (name sel) in
      case Value c key of
        NilVal \<Rightarrow> Some ([], Inl FailNow)
      | SelectorVal s \<Rightarrow> Some ([], Inl Panic)
      | StringVal current \<Rightarrow>
          if current = opt then exhaust_loop pc c sel fn rest
          else (let subCtx = WithValue c key (StringVal opt) in
                andThen (pc subCtx (''exhaust_'' @ name sel @ ''_'' @ opt) fn)
                        (exhaust_loop pc c sel fn rest)))"

definition exhaust :: "planfn \<Rightarrow> testImpl \<Rightarrow> body \<Rightarrow> outcome" where
  "exhaust pc imp fn =
     (case parameterSelection imp of
        None \<Rightarrow> Some ([], Inr ())
      | Some sel \<Rightarrow> exhaust_loop pc (Ctx imp) sel fn (options sel))"

text \<open>
  The closure that \<^verbatim>\<open>planCtx\<close> hands to \<^verbatim>\<open>T.Run\<close>, given how the body ran in the new
  scope: when the body returned, the scope's recorded parameter is exhausted.
\<close>

definition plan_closure :: "planfn \<Rightarrow> body \<Rightarrow> (event list \<times> (abort + unit) \<times> testImpl) option \<Rightarrow> outcome" where
  "plan_closure pc fn r =
     (case r of
        None \<Rightarrow> None
      | Some (evs, Inl a, subScope) \<Rightarrow> Some (evs, Inl a)
      | Some (evs, Inr u, subScope) \<Rightarrow>
          andThen (Some (evs @ [FnReturned (ctx subScope)], Inr ())) (exhaust pc subScope fn))"

text \<open>The closure that \<^verbatim>\<open>Run\<close> hands to \<^verbatim>\<open>T.Run\<close>: the body, and nothing after it.\<close>

definition run_closure :: "(event list \<times> (abort + unit) \<times> testImpl) option \<Rightarrow> outcome" where
  "run_closure r =
     (case r of
        None \<Rightarrow> None
      | Some (evs, Inl a, subScope) \<Rightarrow> Some (evs, Inl a)
      | Some (evs, Inr u, subScope) \<Rightarrow> Some (evs @ [FnReturned (ctx subScope)], Inr ()))"

text \<open>
  The method \<^verbatim>\<open>Plan\<close> of a scope; \<open>pc\<close> stands for \<^verbatim>\<open>planCtx\<close>, defined below.
\<close>

definition testImpl_Plan :: "planfn \<Rightarrow> testImpl \<Rightarrow> string \<Rightarrow> body \<Rightarrow> outcome" where
  "testImpl_Plan pc imp nm fn = pc (Ctx imp) nm fn"

text \<open>
  \<open>exec pc fn imp\<close> runs the body \<open>fn\<close> on the scope \<open>imp\<close>. The result is the events,
  how the body ended and the scope as the body left it. The case of \<open>CallRun\<close> is the
  method \<^verbatim>\<open>Run\<close>: a new scope on the caller's context, the body run in it as a sub-test.
\<close>

primrec exec :: "planfn \<Rightarrow> body \<Rightarrow> testImpl \<Rightarrow> (event list \<times> (abort + unit) \<times> testImpl) option" where
  "exec pc Return imp = Some ([], Inr (), imp)"
| "exec pc (CallSelect nm opts k) imp =
     (case Select imp nm opts of
        (Inl a, imp') \<Rightarrow> Some ([], Inl a, imp')
      | (Inr v, imp') \<Rightarrow> exec pc (k v) imp')"
| "exec pc (CallParameter nm k) imp =
     (case Parameter imp nm of
        Inl a \<Rightarrow> Some ([], Inl a, imp)
      | Inr vb \<Rightarrow> exec pc (k vb) imp)"
| "exec pc (CallCtx k) imp = exec pc (k (Ctx imp)) imp"
| "exec pc (CallPlan nm fn rest) imp =
     (case testImpl_Plan pc imp nm fn of
        None \<Rightarrow> None
      | Some (evs, Inl a) \<Rightarrow> Some (evs, Inl a, imp)
      | Some (evs, Inr u) \<Rightarrow>
          (case exec pc rest imp of
             None \<Rightarrow> None
           | Some (evs', x, imp') \<Rightarrow> Some (evs @ evs', x, imp')))"
| "exec pc (CallRun nm fn rest) imp =
     (case T_Run nm (run_closure
             (exec pc fn \<lparr>ctx = WithCancel (Ctx imp), parameterSelection = None\<rparr>)) of
        None \<Rightarrow> None
      | Some (evs, Inl a) \<Rightarrow> Some (evs, Inl a, imp)
      | Some (evs, Inr u) \<Rightarrow>
          (case exec pc rest imp of
             None \<Rightarrow> None
           | Some (evs', x, imp') \<Rightarrow> Some (evs @ evs', x, imp')))"

definition Run :: "planfn \<Rightarrow> testImpl \<Rightarrow> string \<Rightarrow> body \<Rightarrow> outcome" where
  "Run pc imp nm fn =
     T_Run nm (run_closure (exec pc fn \<lparr>ctx = WithCancel (Ctx imp), parameterSelection = None\<rparr>))"

text \<open>
  \<^verbatim>\<open>planCtx\<close>. Exhaustion calls \<^verbatim>\<open>planCtx\<close> again with the same body, so the recursion is
  not structural; the first argument bounds how deep sub-tests may nest, and \<open>None\<close>
  says that the bound was reached.
\<close>

primrec planCtx :: "nat \<Rightarrow> Context \<Rightarrow> string \<Rightarrow> body \<Rightarrow> outcome" where
  "planCtx 0 c nm fn = None"
| "planCtx (Suc depth) c nm fn =
     T_Run nm (plan_closure (planCtx depth) fn
       (exec (planCtx depth) fn \<lparr>ctx = WithCancel c, parameterSelection = None\<rparr>))"

text \<open>The package function \<^verbatim>\<open>Plan\<close>, the entry point.\<close>

definition Plan :: "nat \<Rightarrow> body \<Rightarrow> outcome" where
  "Plan depth fn =
     (let selector = NilVal;
          c = WithValue (WithCancel Background) parameterManagerCtxKey selector;
          imp = \<lparr>ctx = c, parameterSelection = None\<rparr>
      in andThen (testImpl_Plan (planCtx depth) imp ''default'' fn)
                 (exhaust (planCtx depth) imp fn))"

subsection \<open>Observations on runs\<close>

text \<open>
  The sub-plans that the spec describes for exhaustion: one for every recorded option
  other than the bound value \<open>cur\<close>, in the order of the options, each with the context
  in which the name is rebound to the option and the name of the sub-test. They are run
  one after the other.
\<close>

definition spec_exhaust_subplans :: "Context \<Rightarrow> parameterSelection \<Rightarrow> string \<Rightarrow> (Context \<times> string) list" where
  "spec_exhaust_subplans c sel cur =
     map (\<lambda>opt. (WithValue c (parameterCtxKey (name sel)) (StringVal opt),
                  ''exhaust_'' @ name sel @ ''_'' @ opt))
         (filter (\<lambda>opt. opt \<noteq> cur) (options sel))"

fun spec_run_subplans :: "planfn \<Rightarrow> body \<Rightarrow> (Context \<times> string) list \<Rightarrow> outcome" where
  "spec_run_subplans pc fn [] = Some ([], Inr ())"
| "spec_run_subplans pc fn ((c, nm) # rest) = andThen (pc c nm fn) (spec_run_subplans pc fn rest)"

text \<open>
  \<open>open_after evs n\<close> counts the sub-tests that are still running after the events
  \<open>evs\<close> when \<open>n\<close> were running before; it is \<open>None\<close> when a sub-test ends that was
  never started. In a complete list of events every sub-test that started has ended.
\<close>

fun open_after :: "event list \<Rightarrow> nat \<Rightarrow> nat option" where
  "open_after [] n = Some n"
| "open_after (RunStart nm # evs) n = open_after evs (Suc n)"
| "open_after (FnReturned c # evs) n = open_after evs n"
| "open_after (RunEnd nm x # evs) n = (case n of 0 \<Rightarrow> None | Suc m \<Rightarrow> open_after evs m)"

definition runs_complete :: "event list \<Rightarrow> bool" where
  "runs_complete evs = (open_after evs 0 = Some 0)"

definition balanced :: "event list \<Rightarrow> bool" where
  "balanced evs = (\<forall>n. open_after evs n = Some n)"

definition plans_balanced :: "planfn \<Rightarrow> bool" where
  "plans_balanced pc = (\<forall>c nm fn evs r. pc c nm fn = Some (evs, r) \<longrightarrow> balanced evs)"

text \<open>
  The invariant of a scope: the name of a recorded selection is bound to a string in
  the scope's context.
\<close>

definition selection_bound :: "testImpl \<Rightarrow> bool" where
  "selection_bound imp =
     (case parameterSelection imp of
        None \<Rightarrow> True
      | Some sel \<Rightarrow>
          (case Value (ctx imp) (parameterCtxKey (name sel)) of
             StringVal v \<Rightarrow> True
           | NilVal \<Rightarrow> False
           | SelectorVal s \<Rightarrow> False))"

definition plans_not_fatal :: "planfn \<Rightarrow> bool" where
  "plans_not_fatal pc = (\<forall>c nm fn evs. pc c nm fn \<noteq> Some (evs, Inl FailNow))"

subsection \<open>Concrete selectors, scopes and bodies\<close>

text \<open>
  Selectors that keep every option, keep none, and answer with an option that was not
  presented; a context that holds a given value in the selector's slot; a new scope on a
  context; and two bodies: one \<^verbatim>\<open>Select("p", "a", "b", "c")\<close>, and
  \<^verbatim>\<open>Select("p", "a", "b")\<close> followed by \<^verbatim>\<open>Select("q", "x", "y")\<close>.
\<close>

definition selectAll :: ParameterSelector where
  "selectAll nm opts = opts"

definition selectNone :: ParameterSelector where
  "selectNone nm opts = []"

definition selectZ :: ParameterSelector where
  "selectZ nm opts = [''z'']"

definition ctxWith :: "anyVal \<Rightarrow> Context" where
  "ctxWith selector = WithValue (WithCancel Background) parameterManagerCtxKey selector"

definition scopeOn :: "Context \<Rightarrow> testImpl" where
  "scopeOn c = \<lparr>ctx = c, parameterSelection = None\<rparr>"

definition body_p_abc :: body where
  "body_p_abc = CallSelect ''p'' [''a'', ''b'', ''c''] (\<lambda>v. Return)"

definition body_p_q :: body where
  "body_p_q = CallSelect ''p'' [''a'', ''b''] (\<lambda>v. CallSelect ''q'' [''x'', ''y''] (\<lambda>w. Return))"

text \<open>
  The scope that \<open>body_p_abc\<close> leaves behind when every option is selected, what its
  exhaustion produces, and the events of the whole plan named \<^verbatim>\<open>default\<close>.
\<close>

definition scope_p_a :: testImpl where
  "scope_p_a =
     \<lparr>ctx = WithValue (ctxWith (SelectorVal selectAll)) (parameterCtxKey ''p'') (StringVal ''a''),
      parameterSelection = Some \<lparr>name = ''p'', options = [''a'', ''b'', ''c'']\<rparr>\<rparr>"

definition exhaust_trace_p_abc :: "event list" where
  "exhaust_trace_p_abc =
     [RunStart ''exhaust_p_b'',
      FnReturned (WithValue (ctx scope_p_a) (parameterCtxKey ''p'') (StringVal ''b'')),
      RunEnd ''exhaust_p_b'' (Inr ()),
      RunStart ''exhaust_p_c'',
      FnReturned (WithValue (ctx scope_p_a) (parameterCtxKey ''p'') (StringVal ''c'')),
      RunEnd ''exhaust_p_c'' (Inr ())]"

definition trace_p_abc :: "event list" where
  "trace_p_abc =
     RunStart ''default'' # FnReturned (ctx scope_p_a) # exhaust_trace_p_abc
       @ [RunEnd ''default'' (Inr ())]"

lemmas fixture_defs = selectAll_def selectNone_def selectZ_def ctxWith_def scopeOn_def
  WithValue_def WithCancel_def Background_def

section \<open>Properties\<close>

subsection \<open>Contexts and single calls\<close>

lemma Value_WithValue:
  "Value (WithValue c k v) k' = (if k = k' then v else Value c k')"
  by (simp add: WithValue_def)

lemma selected_unbound:
  "Value (ctx imp) (parameterCtxKey nm) = NilVal \<Longrightarrow> opts \<noteq> [] \<Longrightarrow>
   selected imp nm opts =
     (Inr (), imp\<lparr>parameterSelection := Some \<lparr>name = nm, options = opts\<rparr>,
                  ctx := WithValue (ctx imp) (parameterCtxKey nm) (StringVal (opts ! 0))\<rparr>)"
  by (simp add: selected_def)

lemma Select_unbound:
  assumes "Value (ctx imp) (parameterCtxKey nm) = NilVal"
    and "Value (ctx imp) parameterManagerCtxKey = SelectorVal selector"
  shows "Select imp nm opts =
     (if selector nm opts = [] then (Inl SkipNow, imp)
      else if ''*'' \<notin> set opts \<and> \<not> set (selector nm opts) \<subseteq> set opts then (Inl FailNow, imp)
      else (Inr (selector nm opts ! 0),
            imp\<lparr>parameterSelection := Some \<lparr>name = nm, options = selector nm opts\<rparr>,
                ctx := WithValue (ctx imp) (parameterCtxKey nm) (StringVal (selector nm opts ! 0))\<rparr>))"
  using assms by (auto simp add: Select_def Let_def selected_unbound list_all_iff)

lemma Select_bound:
  assumes "Value (ctx imp) (parameterCtxKey nm) = StringVal v"
  shows "Select imp nm opts =
     (if ''*'' \<notin> set opts \<and> v \<notin> set opts then (Inl FailNow, imp) else (Inr v, imp))"
  using assms by (simp add: Select_def Let_def)

lemma Select_nil_selector:
  assumes "Value (ctx imp) (parameterCtxKey nm) = NilVal"
    and "Value (ctx imp) parameterManagerCtxKey = NilVal"
  shows "Select imp nm opts = (Inl Panic, imp)"
  using assms by (simp add: Select_def Let_def)

text \<open>The case of \<open>CallRun\<close> in \<open>exec\<close> is the method \<^verbatim>\<open>Run\<close>.\<close>

lemma exec_CallRun:
  "exec pc (CallRun nm fn rest) imp =
     (case Run pc imp nm fn of
        None \<Rightarrow> None
      | Some (evs, Inl a) \<Rightarrow> Some (evs, Inl a, imp)
      | Some (evs, Inr u) \<Rightarrow>
          (case exec pc rest imp of
             None \<Rightarrow> None
           | Some (evs', x, imp') \<Rightarrow> Some (evs @ evs', x, imp')))"
  by (simp add: Run_def)

subsection \<open>Select on a bound name\<close>

text \<open>
  C4. When the name is already bound to \<open>v\<close> in the scope's context, \<^verbatim>\<open>Select\<close> fails
  fatally if \<open>v\<close> is not among the options and the options hold no wildcard; otherwise it
  returns \<open>v\<close> and leaves the scope as it was. The selector's slot of the context plays no
  part: the statement holds for every scope, also one whose slot holds \<^verbatim>\<open>nil\<close>, and any
  two scopes that bind the name to \<open>v\<close> give the same answer. In particular
  \<^verbatim>\<open>Select(name, "*")\<close> returns \<open>v\<close>.
\<close>

theorem Select_already_bound:
  assumes "Value (ctx imp) (parameterCtxKey nm) = StringVal v"
  shows "(v \<notin> set opts \<and> ''*'' \<notin> set opts \<longrightarrow> Select imp nm opts = (Inl FailNow, imp)) \<and>
         (v \<in> set opts \<or> ''*'' \<in> set opts \<longrightarrow> Select imp nm opts = (Inr v, imp)) \<and>
         Select imp nm [''*''] = (Inr v, imp) \<and>
         (Value (ctx other) (parameterCtxKey nm) = StringVal v \<longrightarrow>
            fst (Select other nm opts) = fst (Select imp nm opts))"
  using assms by (simp add: Select_bound)

theorem Select_already_bound_witness:
  "Value (ctx (scopeOn (WithValue (ctxWith NilVal) (parameterCtxKey ''p'') (StringVal ''v''))))
     (parameterCtxKey ''p'') = StringVal ''v'' \<and>
   Select (scopeOn (WithValue (ctxWith NilVal) (parameterCtxKey ''p'') (StringVal ''v''))) ''p'' [''a'', ''b'']
     = (Inl FailNow, scopeOn (WithValue (ctxWith NilVal) (parameterCtxKey ''p'') (StringVal ''v''))) \<and>
   Select (scopeOn (WithValue (ctxWith NilVal) (parameterCtxKey ''p'') (StringVal ''v''))) ''p'' [''v'', ''w'']
     = (Inr ''v'', scopeOn (WithValue (ctxWith NilVal) (parameterCtxKey ''p'') (StringVal ''v''))) \<and>
   Select (scopeOn (WithValue (ctxWith NilVal) (parameterCtxKey ''p'') (StringVal ''v''))) ''p'' [''*'']
     = (Inr ''v'', scopeOn (WithValue (ctxWith NilVal) (parameterCtxKey ''p'') (StringVal ''v'')))"
proof -
  let ?imp = "scopeOn (WithValue (ctxWith NilVal) (parameterCtxKey ''p'') (StringVal ''v''))"
  have b: "Value (ctx ?imp) (parameterCtxKey ''p'') = StringVal ''v''"
    by (simp add: fixture_defs)
  show ?thesis
    using b Select_already_bound [OF b, of "[''a'', ''b'']"]
      Select_already_bound [OF b, of "[''v'', ''w'']"]
    by simp
qed

subsection \<open>Select on an unbound name\<close>

text \<open>
  C8. When the name is unbound and the selector returns no option, \<^verbatim>\<open>Select\<close> ends the
  test function with \<^verbatim>\<open>Skipf\<close>, not \<^verbatim>\<open>Fatalf\<close>: the scope is left as it was (no binding,
  no selection record), the body stops there, and a plan whose body starts with this call
  ends skipped while its caller goes on.
\<close>

theorem Select_empty_selection_skips:
  assumes "Value (ctx imp) (parameterCtxKey nm) = NilVal"
    and "Value (ctx imp) parameterManagerCtxKey = SelectorVal selector"
    and "selector nm opts = []"
  shows "Select imp nm opts = (Inl SkipNow, imp) \<and>
         Parameter (snd (Select imp nm opts)) nm = Inr ([], False) \<and>
         parameterSelection (snd (Select imp nm opts)) = parameterSelection imp \<and>
         exec pc (CallSelect nm opts k) imp = Some ([], Inl SkipNow, imp) \<and>
         planCtx (Suc d) (ctx imp) tn (CallSelect nm opts k) =
           Some ([RunStart tn, RunEnd tn (Inl SkipNow)], Inr ())"
  using assms
  by (simp add: Select_unbound Parameter_def Ctx_def WithCancel_def plan_closure_def T_Run_def)

theorem Select_empty_selection_skips_witness:
  "Value (ctx (scopeOn (ctxWith (SelectorVal selectNone)))) (parameterCtxKey ''p'') = NilVal \<and>
   selectNone ''p'' [''a'', ''b''] = [] \<and>
   Select (scopeOn (ctxWith (SelectorVal selectNone))) ''p'' [''a'', ''b'']
     = (Inl SkipNow, scopeOn (ctxWith (SelectorVal selectNone))) \<and>
   parameterSelection (scopeOn (ctxWith (SelectorVal selectNone))) = None"
proof -
  let ?imp = "scopeOn (ctxWith (SelectorVal selectNone))"
  have u: "Value (ctx ?imp) (parameterCtxKey ''p'') = NilVal"
    and s: "Value (ctx ?imp) parameterManagerCtxKey = SelectorVal selectNone"
    and e: "selectNone ''p'' [''a'', ''b''] = []"
    by (simp_all add: fixture_defs)
  show ?thesis
    using u e Select_empty_selection_skips [OF u s e]
    by (simp add: scopeOn_def)
qed

text \<open>
  C9. When the name is unbound and the options hold no wildcard, a selected option that
  was not presented is fatal; when all selected options were presented and there is at
  least one, the call returns the first. When the options hold the wildcard the selected
  options are not checked: any non-empty selection is accepted.
\<close>

theorem Select_selection_verified:
  assumes "Value (ctx imp) (parameterCtxKey nm) = NilVal"
    and "Value (ctx imp) parameterManagerCtxKey = SelectorVal selector"
  shows "(''*'' \<notin> set opts \<and> \<not> set (selector nm opts) \<subseteq> set opts \<longrightarrow>
            Select imp nm opts = (Inl FailNow, imp)) \<and>
         (''*'' \<notin> set opts \<and> selector nm opts \<noteq> [] \<and> set (selector nm opts) \<subseteq> set opts \<longrightarrow>
            fst (Select imp nm opts) = Inr (selector nm opts ! 0)) \<and>
         (''*'' \<in> set opts \<and> selector nm opts \<noteq> [] \<longrightarrow>
            fst (Select imp nm opts) = Inr (selector nm opts ! 0))"
  using assms by (auto simp add: Select_unbound)

theorem Select_selection_verified_witness:
  "Value (ctx (scopeOn (ctxWith (SelectorVal selectZ)))) (parameterCtxKey ''p'') = NilVal \<and>
   selectZ ''p'' [''a'', ''b''] = [''z''] \<and>
   Select (scopeOn (ctxWith (SelectorVal selectZ))) ''p'' [''a'', ''b'']
     = (Inl FailNow, scopeOn (ctxWith (SelectorVal selectZ))) \<and>
   fst (Select (scopeOn (ctxWith (SelectorVal selectZ))) ''p'' [''y'', ''z'']) = Inr ''z'' \<and>
   fst (Select (scopeOn (ctxWith (SelectorVal selectZ))) ''p'' [''a'', ''*'']) = Inr ''z''"
proof -
  let ?imp = "scopeOn (ctxWith (SelectorVal selectZ))"
  have u: "Value (ctx ?imp) (parameterCtxKey ''p'') = NilVal"
    and s: "Value (ctx ?imp) parameterManagerCtxKey = SelectorVal selectZ"
    by (simp_all add: fixture_defs)
  show ?thesis
    using u Select_selection_verified [OF u s, of "[''a'', ''b'']"]
      Select_selection_verified [OF u s, of "[''y'', ''z'']"]
      Select_selection_verified [OF u s, of "[''a'', ''*'']"]
    by (simp add: selectZ_def)
qed

text \<open>
  C10, as stated, fails: a non-empty selection does not always bind. With the options
  \<^verbatim>\<open>"a", "b"\<close> and a selector that answers \<^verbatim>\<open>"z"\<close>, the selection is not empty, yet the
  call is fatal and the name stays unbound.
\<close>

theorem Select_invalid_selection_counterexample:
  "Value (ctx (scopeOn (ctxWith (SelectorVal selectZ)))) (parameterCtxKey ''p'') = NilVal \<and>
   selectZ ''p'' [''a'', ''b''] = [''z''] \<and>
   Select (scopeOn (ctxWith (SelectorVal selectZ))) ''p'' [''a'', ''b'']
     = (Inl FailNow, scopeOn (ctxWith (SelectorVal selectZ))) \<and>
   Parameter (snd (Select (scopeOn (ctxWith (SelectorVal selectZ))) ''p'' [''a'', ''b''])) ''p''
     = Inr ([], False)"
  by (simp add: Select_def selected_def Parameter_def Ctx_def Let_def fixture_defs)

text \<open>
  C10, amended. When the name is unbound, the selector returns a non-empty list and the
  list passes the check of C9 (the options hold the wildcard, or every selected option
  was presented), then the call returns the first selected option, the scope's context is
  the old one extended with the binding of the name to it, the selection is recorded, and
  \<^verbatim>\<open>Parameter(name)\<close> on the scope afterwards returns that option and \<^verbatim>\<open>true\<close>.
\<close>

theorem Select_binds_first_selected:
  assumes "Value (ctx imp) (parameterCtxKey nm) = NilVal"
    and "Value (ctx imp) parameterManagerCtxKey = SelectorVal selector"
    and "selector nm opts \<noteq> []"
    and "''*'' \<in> set opts \<or> set (selector nm opts) \<subseteq> set opts"
  shows "fst (Select imp nm opts) = Inr (selector nm opts ! 0) \<and>
         ctx (snd (Select imp nm opts)) =
           WithValue (ctx imp) (parameterCtxKey nm) (StringVal (selector nm opts ! 0)) \<and>
         parameterSelection (snd (Select imp nm opts)) =
           Some \<lparr>name = nm, options = selector nm opts\<rparr> \<and>
         Parameter (snd (Select imp nm opts)) nm = Inr (selector nm opts ! 0, True)"
  using assms by (auto simp add: Select_unbound Parameter_def Ctx_def Value_WithValue)

theorem Select_binds_first_selected_witness:
  "Value (ctx (scopeOn (ctxWith (SelectorVal selectAll)))) (parameterCtxKey ''p'') = NilVal \<and>
   selectAll ''p'' [''a'', ''b''] = [''a'', ''b''] \<and>
   fst (Select (scopeOn (ctxWith (SelectorVal selectAll))) ''p'' [''a'', ''b'']) = Inr ''a'' \<and>
   Parameter (snd (Select (scopeOn (ctxWith (SelectorVal selectAll))) ''p'' [''a'', ''b''])) ''p''
     = Inr (''a'', True)"
proof -
  let ?imp = "scopeOn (ctxWith (SelectorVal selectAll))"
  have u: "Value (ctx ?imp) (parameterCtxKey ''p'') = NilVal"
    and s: "Value (ctx ?imp) parameterManagerCtxKey = SelectorVal selectAll"
    and n: "selectAll ''p'' [''a'', ''b''] \<noteq> []"
    and v: "''*'' \<in> set [''a'', ''b''] \<or> set (selectAll ''p'' [''a'', ''b'']) \<subseteq> set [''a'', ''b'']"
    by (simp_all add: fixture_defs)
  show ?thesis
    using u Select_binds_first_selected [OF u s n v]
    by (simp add: selectAll_def)
qed

text \<open>
  C1. The code does not do what the claim says. In a scope whose first
  \<^verbatim>\<open>Select("p", "a", "b")\<close> recorded \<open>p\<close>, a second \<^verbatim>\<open>Select("q", "x", "y")\<close> of an unbound
  name returns normally with \<^verbatim>\<open>"x"\<close>, and the record of \<open>p\<close> is replaced by the record of
  \<open>q\<close>. The plan then exhausts \<open>q\<close> only: the body never runs with \<open>p\<close> bound to \<^verbatim>\<open>"b"\<close>.
\<close>

theorem Select_second_name_replaces_record:
  "Select (snd (Select (scopeOn (ctxWith (SelectorVal selectAll))) ''p'' [''a'', ''b''])) ''q'' [''x'', ''y'']
     = (Inr ''x'',
        \<lparr>ctx = WithValue (WithValue (ctxWith (SelectorVal selectAll))
                 (parameterCtxKey ''p'') (StringVal ''a'')) (parameterCtxKey ''q'') (StringVal ''x''),
         parameterSelection = Some \<lparr>name = ''q'', options = [''x'', ''y'']\<rparr>\<rparr>) \<and>
   planCtx (Suc (Suc d)) (ctxWith (SelectorVal selectAll)) ''default'' body_p_q =
     Some ([RunStart ''default'',
            FnReturned (WithValue (WithValue (ctxWith (SelectorVal selectAll))
              (parameterCtxKey ''p'') (StringVal ''a'')) (parameterCtxKey ''q'') (StringVal ''x'')),
            RunStart ''exhaust_q_y'',
            FnReturned (WithValue (WithValue (WithValue (ctxWith (SelectorVal selectAll))
              (parameterCtxKey ''p'') (StringVal ''a'')) (parameterCtxKey ''q'') (StringVal ''x''))
              (parameterCtxKey ''q'') (StringVal ''y'')),
            RunEnd ''exhaust_q_y'' (Inr ()),
            RunEnd ''default'' (Inr ())], Inr ())"
  by (simp add: body_p_q_def fixture_defs Select_def selected_def Let_def Ctx_def
      plan_closure_def exhaust_def T_Run_def andThen_def)

subsection \<open>The entry point\<close>

text \<open>
  C5. \<^verbatim>\<open>Plan\<close> is the plan named \<^verbatim>\<open>default\<close> on a root context whose only entry is
  \<^verbatim>\<open>nil\<close> in the selector's slot, so every lookup in it gives \<^verbatim>\<open>nil\<close>. In every scope
  whose selector slot holds \<^verbatim>\<open>nil\<close>, \<^verbatim>\<open>Select\<close> of an unbound name panics at the type
  assertion and leaves the scope as it was, and the body stops there. Under \<^verbatim>\<open>Plan\<close> every
  body whose first call is a \<^verbatim>\<open>Select\<close> ends the whole run with that panic, whatever the
  body goes on to do.
\<close>

theorem Plan_nil_selector_panics:
  "Plan d fn = planCtx d (WithValue (WithCancel Background) parameterManagerCtxKey NilVal) ''default'' fn \<and>
   Value (WithValue (WithCancel Background) parameterManagerCtxKey NilVal) key = NilVal \<and>
   (Value (ctx imp) (parameterCtxKey nm) = NilVal \<and>
    Value (ctx imp) parameterManagerCtxKey = NilVal \<longrightarrow>
      Select imp nm opts = (Inl Panic, imp) \<and>
      exec pc (CallSelect nm opts k) imp = Some ([], Inl Panic, imp)) \<and>
   Plan (Suc d) (CallSelect nm opts k) =
     Some ([RunStart ''default'', RunEnd ''default'' (Inl Panic)], Inl Panic)"
proof (intro conjI)
  show "Plan d fn =
      planCtx d (WithValue (WithCancel Background) parameterManagerCtxKey NilVal) ''default'' fn"
    by (cases "planCtx d (WithValue (WithCancel Background) parameterManagerCtxKey NilVal) ''default'' fn")
      (auto simp add: Plan_def testImpl_Plan_def Ctx_def Let_def exhaust_def andThen_def
        split: sum.splits)
  show "Value (WithValue (WithCancel Background) parameterManagerCtxKey NilVal) key = NilVal"
    by (simp add: WithValue_def WithCancel_def Background_def)
  show "Value (ctx imp) (parameterCtxKey nm) = NilVal \<and>
    Value (ctx imp) parameterManagerCtxKey = NilVal \<longrightarrow>
      Select imp nm opts = (Inl Panic, imp) \<and>
      exec pc (CallSelect nm opts k) imp = Some ([], Inl Panic, imp)"
    by (simp add: Select_nil_selector)
  show "Plan (Suc d) (CallSelect nm opts k) =
     Some ([RunStart ''default'', RunEnd ''default'' (Inl Panic)], Inl Panic)"
    by (simp add: Select_nil_selector Plan_def testImpl_Plan_def Ctx_def Let_def Value_WithValue
        WithCancel_def Background_def plan_closure_def T_Run_def andThen_def)
qed

theorem Plan_nil_selector_panics_witness:
  "Value (ctx (scopeOn (ctxWith NilVal))) (parameterCtxKey ''p'') = NilVal \<and>
   Value (ctx (scopeOn (ctxWith NilVal))) parameterManagerCtxKey = NilVal \<and>
   Select (scopeOn (ctxWith NilVal)) ''p'' [''a'', ''b'', ''c''] = (Inl Panic, scopeOn (ctxWith NilVal)) \<and>
   Plan (Suc 0) body_p_abc = Some ([RunStart ''default'', RunEnd ''default'' (Inl Panic)], Inl Panic)"
  using Plan_nil_selector_panics [where imp = "scopeOn (ctxWith NilVal)" and nm = "''p''"
      and opts = "[''a'', ''b'', ''c'']" and d = 0 and k = "\<lambda>v. Return"]
  by (simp add: fixture_defs body_p_abc_def)

text \<open>
  C2. The code does not do what the claim says. Through \<^verbatim>\<open>Plan\<close>, the body that calls
  \<^verbatim>\<open>Select("p", "a", "b", "c")\<close> once panics in its first run, at any depth allowed: no
  run of the body returns, and no execution is bound to \<open>a\<close>, \<open>b\<close> or \<open>c\<close>.
\<close>

theorem Plan_select_p_abc_panics:
  "Plan (Suc d) body_p_abc =
     Some ([RunStart ''default'', RunEnd ''default'' (Inl Panic)], Inl Panic)"
  by (simp add: body_p_abc_def Select_nil_selector Plan_def testImpl_Plan_def Ctx_def Let_def
      Value_WithValue WithCancel_def Background_def plan_closure_def T_Run_def andThen_def)

text \<open>
  The same body under \<^verbatim>\<open>planCtx\<close> with a context that holds a selector keeping every
  option: three runs of the body return, with \<open>p\<close> bound to \<open>a\<close>, \<open>b\<close> and \<open>c\<close>.
\<close>

lemma planCtx_select_p_abc_selectAll:
  "planCtx (Suc (Suc d)) (ctxWith (SelectorVal selectAll)) ''default'' body_p_abc =
     Some (trace_p_abc, Inr ())"
  by (simp add: trace_p_abc_def exhaust_trace_p_abc_def scope_p_a_def body_p_abc_def fixture_defs
      Select_def selected_def Let_def Ctx_def plan_closure_def exhaust_def T_Run_def andThen_def)

lemma exec_body_p_abc_selectAll:
  "exec pc body_p_abc \<lparr>ctx = ctxWith (SelectorVal selectAll), parameterSelection = None\<rparr> =
     Some ([], Inr (), scope_p_a)"
  by (simp add: scope_p_a_def body_p_abc_def fixture_defs Select_def selected_def Let_def)

lemma exhaust_scope_p_a:
  "exhaust (planCtx (Suc d)) scope_p_a body_p_abc = Some (exhaust_trace_p_abc, Inr ())"
  by (simp add: exhaust_trace_p_abc_def scope_p_a_def body_p_abc_def fixture_defs
      Select_def selected_def Let_def Ctx_def plan_closure_def exhaust_def T_Run_def andThen_def)

subsection \<open>Exhaustion\<close>

lemma exhaust_loop_bound:
  assumes "Value c (parameterCtxKey (name sel)) = StringVal cur"
  shows "exhaust_loop pc c sel fn opts =
         spec_run_subplans pc fn
           (map (\<lambda>opt. (WithValue c (parameterCtxKey (name sel)) (StringVal opt),
                        ''exhaust_'' @ name sel @ ''_'' @ opt))
                (filter (\<lambda>opt. opt \<noteq> cur) opts))"
  using assms by (induction opts) (auto simp add: Let_def)

lemma spec_run_subplans_all_return:
  "spec_run_subplans (\<lambda>c nm fn. Some (tr c nm fn, Inr ())) fn calls =
     Some (concat (map (\<lambda>(c, nm). tr c nm fn) calls), Inr ())"
  by (induction calls) (auto simp add: andThen_def)

text \<open>
  C3. In a scope with a recorded selection whose name is bound to \<open>cur\<close>, exhaustion is
  the run, one after the other, of the sub-plans the spec describes: for every position
  of the recorded options whose option differs from \<open>cur\<close>, one call of \<^verbatim>\<open>planCtx\<close> with
  the same body, the name \<^verbatim>\<open>"exhaust_" + name + "_" + option\<close> and the scope's context with
  the name rebound to the option; an option equal to \<open>cur\<close> gets no sub-plan. When every
  sub-plan returns to its caller, the events of exhaustion are the events of these
  sub-plans, each once and in this order.
\<close>

theorem exhaust_spawns_other_options:
  assumes "parameterSelection imp = Some sel"
    and "Value (ctx imp) (parameterCtxKey (name sel)) = StringVal cur"
  shows "exhaust pc imp fn = spec_run_subplans pc fn (spec_exhaust_subplans (ctx imp) sel cur) \<and>
         exhaust (\<lambda>c nm fn. Some (tr c nm fn, Inr ())) imp fn =
           Some (concat (map (\<lambda>(c, nm). tr c nm fn) (spec_exhaust_subplans (ctx imp) sel cur)), Inr ())"
  using assms
  by (simp add: exhaust_def Ctx_def exhaust_loop_bound spec_exhaust_subplans_def
      spec_run_subplans_all_return)

theorem exhaust_spawns_other_options_witness:
  "parameterSelection scope_p_a = Some \<lparr>name = ''p'', options = [''a'', ''b'', ''c'']\<rparr> \<and>
   Value (ctx scope_p_a) (parameterCtxKey ''p'') = StringVal ''a'' \<and>
   spec_exhaust_subplans (ctx scope_p_a) \<lparr>name = ''p'', options = [''a'', ''b'', ''c'']\<rparr> ''a'' =
     [(WithValue (ctx scope_p_a) (parameterCtxKey ''p'') (StringVal ''b''), ''exhaust_p_b''),
      (WithValue (ctx scope_p_a) (parameterCtxKey ''p'') (StringVal ''c''), ''exhaust_p_c'')] \<and>
   exhaust (planCtx (Suc 0)) scope_p_a body_p_abc =
     spec_run_subplans (planCtx (Suc 0)) body_p_abc
       [(WithValue (ctx scope_p_a) (parameterCtxKey ''p'') (StringVal ''b''), ''exhaust_p_b''),
        (WithValue (ctx scope_p_a) (parameterCtxKey ''p'') (StringVal ''c''), ''exhaust_p_c'')] \<and>
   exhaust (planCtx (Suc 0)) scope_p_a body_p_abc = Some (exhaust_trace_p_abc, Inr ())"
proof -
  let ?sel = "\<lparr>name = ''p'', options = [''a'', ''b'', ''c'']\<rparr>"
  have r: "parameterSelection scope_p_a = Some ?sel"
    by (simp add: scope_p_a_def)
  have b: "Value (ctx scope_p_a) (parameterCtxKey (name ?sel)) = StringVal ''a''"
    by (simp add: scope_p_a_def fixture_defs)
  have l: "spec_exhaust_subplans (ctx scope_p_a) ?sel ''a'' =
     [(WithValue (ctx scope_p_a) (parameterCtxKey ''p'') (StringVal ''b''), ''exhaust_p_b''),
      (WithValue (ctx scope_p_a) (parameterCtxKey ''p'') (StringVal ''c''), ''exhaust_p_c'')]"
    by (simp add: spec_exhaust_subplans_def)
  have "exhaust (planCtx (Suc 0)) scope_p_a body_p_abc =
          spec_run_subplans (planCtx (Suc 0)) body_p_abc (spec_exhaust_subplans (ctx scope_p_a) ?sel ''a'')"
    using exhaust_spawns_other_options [OF r b] by blast
  with r b l show ?thesis
    by (simp add: exhaust_scope_p_a)
qed

subsection \<open>Sub-tests are complete when their caller goes on\<close>

lemma open_after_append:
  "open_after (evs @ evs') n =
     (case open_after evs n of None \<Rightarrow> None | Some m \<Rightarrow> open_after evs' m)"
  by (induction evs n rule: open_after.induct) (auto split: nat.splits)

lemma balanced_Nil: "balanced []"
  by (simp add: balanced_def)

lemma balanced_append: "balanced evs \<Longrightarrow> balanced evs' \<Longrightarrow> balanced (evs @ evs')"
  by (simp add: balanced_def open_after_append)

lemma balanced_FnReturned: "balanced [FnReturned c]"
  by (simp add: balanced_def)

lemma balanced_run: "balanced evs \<Longrightarrow> balanced (RunStart nm # evs @ [RunEnd nm x])"
  by (simp add: balanced_def open_after_append)

lemma balanced_complete: "balanced evs \<Longrightarrow> runs_complete evs"
  by (simp add: balanced_def runs_complete_def)

lemma T_Run_balanced:
  assumes "T_Run nm r = Some (evs, x)"
    and "\<And>evs' x'. r = Some (evs', x') \<Longrightarrow> balanced evs'"
  shows "balanced evs"
  using assms by (auto simp add: T_Run_def balanced_run split: option.splits)

lemma andThen_balanced:
  assumes "andThen r1 r2 = Some (evs, x)"
    and "\<And>evs' x'. r1 = Some (evs', x') \<Longrightarrow> balanced evs'"
    and "\<And>evs' x'. r2 = Some (evs', x') \<Longrightarrow> balanced evs'"
  shows "balanced evs"
  using assms by (auto simp add: andThen_def balanced_append split: option.splits sum.splits)

lemma plans_balancedD:
  "plans_balanced pc \<Longrightarrow> pc c nm fn = Some (evs, r) \<Longrightarrow> balanced evs"
  unfolding plans_balanced_def by blast

lemma exhaust_loop_balanced:
  assumes "plans_balanced pc"
  shows "exhaust_loop pc c sel fn opts = Some (evs, x) \<Longrightarrow> balanced evs"
proof (induction opts arbitrary: evs x)
  case Nil
  then show ?case by (simp add: balanced_Nil)
next
  case (Cons opt rest)
  show ?case
  proof (cases "Value c (parameterCtxKey (name sel))")
    case NilVal
    with Cons.prems show ?thesis by (simp add: balanced_Nil)
  next
    case (StringVal cur)
    show ?thesis
    proof (cases "cur = opt")
      case True
      with Cons StringVal show ?thesis by simp
    next
      case False
      with Cons.prems StringVal
      have "andThen (pc (WithValue c (parameterCtxKey (name sel)) (StringVal opt))
                        (''exhaust_'' @ name sel @ ''_'' @ opt) fn)
                    (exhaust_loop pc c sel fn rest) = Some (evs, x)"
        by (simp add: Let_def)
      then show ?thesis
      proof (rule andThen_balanced)
        fix evs' x'
        assume "pc (WithValue c (parameterCtxKey (name sel)) (StringVal opt))
                   (''exhaust_'' @ name sel @ ''_'' @ opt) fn = Some (evs', x')"
        with assms show "balanced evs'" by (rule plans_balancedD)
      next
        fix evs' x'
        assume "exhaust_loop pc c sel fn rest = Some (evs', x')"
        then show "balanced evs'" by (rule Cons.IH)
      qed
    qed
  next
    case (SelectorVal s)
    with Cons.prems show ?thesis by (simp add: balanced_Nil)
  qed
qed

lemma exhaust_balanced:
  "plans_balanced pc \<Longrightarrow> exhaust pc imp fn = Some (evs, x) \<Longrightarrow> balanced evs"
  by (auto simp add: exhaust_def balanced_Nil dest: exhaust_loop_balanced split: option.splits)


lemma run_closure_balanced:
  assumes "\<And>e y s. r = Some (e, y, s) \<Longrightarrow> balanced e"
    and "run_closure r = Some (evs, x)"
  shows "balanced evs"
proof (cases r)
  case None
  with assms(2) show ?thesis by (simp add: run_closure_def)
next
  case (Some t)
  obtain e y s where t: "t = (e, y, s)" by (cases t)
  with Some assms(1) have "balanced e" by simp
  with assms(2) Some t show ?thesis
    by (cases y) (auto simp add: run_closure_def balanced_append balanced_FnReturned)
qed

lemma exec_balanced:
  assumes "plans_balanced pc"
  shows "exec pc b imp = Some (evs, x, imp') \<Longrightarrow> balanced evs"
proof (induction b arbitrary: imp evs x imp')
  case Return
  then show ?case by (simp add: balanced_Nil)
next
  case (CallSelect nm opts k)
  obtain r imp1 where s: "Select imp nm opts = (r, imp1)"
    by (cases "Select imp nm opts")
  show ?case
  proof (cases r)
    case (Inl a)
    with CallSelect.prems s show ?thesis by (simp add: balanced_Nil)
  next
    case (Inr v)
    with CallSelect.prems s have "exec pc (k v) imp1 = Some (evs, x, imp')" by simp
    then show ?thesis by (rule CallSelect.IH [OF rangeI])
  qed
next
  case (CallParameter nm k)
  show ?case
  proof (cases "Parameter imp nm")
    case (Inl a)
    with CallParameter.prems show ?thesis by (simp add: balanced_Nil)
  next
    case (Inr vb)
    with CallParameter.prems have "exec pc (k vb) imp = Some (evs, x, imp')" by simp
    then show ?thesis by (rule CallParameter.IH [OF rangeI])
  qed
next
  case (CallCtx k)
  then have "exec pc (k (Ctx imp)) imp = Some (evs, x, imp')" by simp
  then show ?case by (rule CallCtx.IH [OF rangeI])
next
  case (CallPlan nm fn rest)
  from CallPlan.prems obtain e1 y where
    p: "pc (Ctx imp) nm fn = Some (e1, y)"
    by (auto simp add: testImpl_Plan_def split: option.splits)
  with assms have b1: "balanced e1" by (rule plans_balancedD)
  show ?case
  proof (cases y)
    case (Inl a)
    with CallPlan.prems p b1 show ?thesis by (simp add: testImpl_Plan_def)
  next
    case (Inr u)
    with CallPlan.prems p obtain e2 where
      "exec pc rest imp = Some (e2, x, imp')" and "evs = e1 @ e2"
      by (auto simp add: testImpl_Plan_def split: option.splits)
    with CallPlan.IH(2) b1 show ?thesis by (auto intro: balanced_append)
  qed
next
  case (CallRun nm fn rest)
  let ?sub = "exec pc fn \<lparr>ctx = WithCancel (Ctx imp), parameterSelection = None\<rparr>"
  from CallRun.prems obtain e1 y where
    p: "T_Run nm (run_closure ?sub) = Some (e1, y)"
    by (auto split: option.splits)
  have "\<And>evs' x'. run_closure ?sub = Some (evs', x') \<Longrightarrow> balanced evs'"
    using CallRun.IH(1) by (rule run_closure_balanced)
  with p have b1: "balanced e1" by (rule T_Run_balanced)
  show ?case
  proof (cases y)
    case (Inl a)
    with CallRun.prems p b1 show ?thesis by simp
  next
    case (Inr u)
    with CallRun.prems p obtain e2 where
      "exec pc rest imp = Some (e2, x, imp')" and "evs = e1 @ e2"
      by (auto split: option.splits)
    with CallRun.IH(2) b1 show ?thesis by (auto intro: balanced_append)
  qed
qed



lemma plan_closure_balanced:
  assumes "plans_balanced pc"
    and "plan_closure pc fn (exec pc fn imp) = Some (evs, x)"
  shows "balanced evs"
proof (cases "exec pc fn imp")
  case None
  with assms(2) show ?thesis by (simp add: plan_closure_def)
next
  case (Some t)
  obtain e1 y imp' where t: "t = (e1, y, imp')" by (cases t)
  from assms(1) Some [unfolded t] have b1: "balanced e1" by (rule exec_balanced)
  show ?thesis
  proof (cases y)
    case (Inl a)
    with assms(2) Some t b1 show ?thesis by (simp add: plan_closure_def)
  next
    case (Inr u)
    with assms(2) Some t
    have "andThen (Some (e1 @ [FnReturned (ctx imp')], Inr ())) (exhaust pc imp' fn) = Some (evs, x)"
      by (simp add: plan_closure_def)
    then show ?thesis
    proof (rule andThen_balanced)
      fix evs' x'
      assume "Some (e1 @ [FnReturned (ctx imp')], Inr ()) = Some (evs', x')"
      with b1 show "balanced evs'" by (auto simp add: balanced_append balanced_FnReturned)
    next
      fix evs' x'
      assume "exhaust pc imp' fn = Some (evs', x')"
      with assms(1) show "balanced evs'" by (rule exhaust_balanced)
    qed
  qed
qed

lemma planCtx_balanced: "plans_balanced (planCtx d)"
proof (induction d)
  case 0
  show ?case by (simp add: plans_balanced_def)
next
  case (Suc d)
  show ?case
    unfolding plans_balanced_def
  proof (intro allI impI)
    fix c nm fn evs r
    assume "planCtx (Suc d) c nm fn = Some (evs, r)"
    then have "T_Run nm (plan_closure (planCtx d) fn
       (exec (planCtx d) fn \<lparr>ctx = WithCancel c, parameterSelection = None\<rparr>)) = Some (evs, r)"
      by simp
    then show "balanced evs"
    proof (rule T_Run_balanced)
      fix evs' x'
      assume "plan_closure (planCtx d) fn
         (exec (planCtx d) fn \<lparr>ctx = WithCancel c, parameterSelection = None\<rparr>) = Some (evs', x')"
      with Suc show "balanced evs'" by (rule plan_closure_balanced)
    qed
  qed
qed

text \<open>
  C6. Whenever \<^verbatim>\<open>planCtx\<close> returns, its events are: the start of the sub-test, then all
  events of the default run of the body in the new scope, in which every nested sub-test
  that started has also ended; then, only if the body returned, the mark of that return
  followed by all events of the scope's exhaustion; then the end of the sub-test. When
  the body was cut short, no exhaustion takes place at all.
\<close>

theorem planCtx_default_before_exhaust:
  assumes "planCtx (Suc d) c nm fn = Some (tr, r)"
  shows "\<exists>evs x subScope.
           exec (planCtx d) fn \<lparr>ctx = WithCancel c, parameterSelection = None\<rparr>
             = Some (evs, x, subScope) \<and>
           runs_complete evs \<and>
           (case x of
              Inl a \<Rightarrow> tr = RunStart nm # evs @ [RunEnd nm (Inl a)]
            | Inr u \<Rightarrow>
                (\<exists>evs' r'. exhaust (planCtx d) subScope fn = Some (evs', r') \<and>
                   tr = RunStart nm # evs @ FnReturned (ctx subScope) # evs' @ [RunEnd nm r']))"
proof (cases "exec (planCtx d) fn \<lparr>ctx = WithCancel c, parameterSelection = None\<rparr>")
  case None
  with assms show ?thesis by (simp add: plan_closure_def T_Run_def)
next
  case (Some t)
  obtain evs x subScope where t: "t = (evs, x, subScope)" by (cases t)
  from planCtx_balanced Some [unfolded t] have "balanced evs" by (rule exec_balanced)
  then have rc: "runs_complete evs" by (rule balanced_complete)
  show ?thesis
  proof (cases x)
    case (Inl a)
    with assms Some t have "tr = RunStart nm # evs @ [RunEnd nm (Inl a)]"
      by (simp add: plan_closure_def T_Run_def)
    with Some t rc Inl show ?thesis by simp
  next
    case (Inr u)
    show ?thesis
    proof (cases "exhaust (planCtx d) subScope fn")
      case None
      with assms Some t Inr show ?thesis
        by (simp add: plan_closure_def T_Run_def andThen_def)
    next
      case ex: (Some t')
      obtain evs' r' where t': "t' = (evs', r')" by (cases t')
      with assms Some t Inr ex
      have "tr = RunStart nm # evs @ FnReturned (ctx subScope) # evs' @ [RunEnd nm r']"
        by (simp add: plan_closure_def T_Run_def andThen_def)
      with Some t rc Inr ex t' show ?thesis by simp
    qed
  qed
qed

theorem planCtx_default_before_exhaust_witness:
  "planCtx (Suc (Suc 0)) (ctxWith (SelectorVal selectAll)) ''default'' body_p_abc =
     Some (trace_p_abc, Inr ()) \<and>
   exec (planCtx (Suc 0)) body_p_abc
     \<lparr>ctx = WithCancel (ctxWith (SelectorVal selectAll)), parameterSelection = None\<rparr>
     = Some ([], Inr (), scope_p_a) \<and>
   runs_complete [] \<and>
   exhaust (planCtx (Suc 0)) scope_p_a body_p_abc = Some (exhaust_trace_p_abc, Inr ()) \<and>
   trace_p_abc =
     RunStart ''default'' # [] @ FnReturned (ctx scope_p_a) # exhaust_trace_p_abc
       @ [RunEnd ''default'' (Inr ())]"
proof -
  have h: "planCtx (Suc (Suc 0)) (ctxWith (SelectorVal selectAll)) ''default'' body_p_abc =
     Some (trace_p_abc, Inr ())"
    by (rule planCtx_select_p_abc_selectAll)
  have e0: "exec (planCtx (Suc 0)) body_p_abc
     \<lparr>ctx = WithCancel (ctxWith (SelectorVal selectAll)), parameterSelection = None\<rparr>
     = Some ([], Inr (), scope_p_a)"
    by (simp add: WithCancel_def exec_body_p_abc_selectAll)
  from planCtx_default_before_exhaust [OF h] obtain evs x subScope where
    e: "exec (planCtx (Suc 0)) body_p_abc
          \<lparr>ctx = WithCancel (ctxWith (SelectorVal selectAll)), parameterSelection = None\<rparr>
          = Some (evs, x, subScope)"
    and c: "runs_complete evs"
    and t: "case x of
         Inl a \<Rightarrow> trace_p_abc = RunStart ''default'' # evs @ [RunEnd ''default'' (Inl a)]
       | Inr u \<Rightarrow>
           (\<exists>evs' r'. exhaust (planCtx (Suc 0)) subScope body_p_abc = Some (evs', r') \<and>
              trace_p_abc =
                RunStart ''default'' # evs @ FnReturned (ctx subScope) # evs' @ [RunEnd ''default'' r'])"
    by blast
  from e e0 have "evs = []" and "x = Inr ()" and "subScope = scope_p_a"
    by simp_all
  with h e0 c t show ?thesis
    by (auto simp add: exhaust_scope_p_a)
qed

subsection \<open>A recorded name stays bound\<close>

lemma selected_selection_bound:
  "selected imp nm opts = (x, imp') \<Longrightarrow> selection_bound imp \<Longrightarrow> selection_bound imp'"
proof (cases "opts = [] \<or> Value (ctx imp) (parameterCtxKey nm) \<noteq> NilVal")
  case True
  assume "selected imp nm opts = (x, imp')" and "selection_bound imp"
  with True show ?thesis
    by (cases "Value (ctx imp) (parameterCtxKey nm)") (auto simp add: selected_def split: if_splits)
next
  case False
  assume "selected imp nm opts = (x, imp')"
  with False have "imp' = imp\<lparr>parameterSelection := Some \<lparr>name = nm, options = opts\<rparr>,
                  ctx := WithValue (ctx imp) (parameterCtxKey nm) (StringVal (opts ! 0))\<rparr>"
    by (simp add: selected_unbound)
  then show ?thesis by (simp add: selection_bound_def Value_WithValue)
qed

lemma Select_selection_bound:
  assumes "Select imp nm opts = (x, imp')" and "selection_bound imp"
  shows "selection_bound imp'"
proof (cases "Value (ctx imp) (parameterCtxKey nm)")
  case NilVal
  show ?thesis
  proof (cases "Value (ctx imp) parameterManagerCtxKey")
    case (SelectorVal selector)
    obtain y imp1 where s: "selected imp nm (selector nm opts) = (y, imp1)"
      by (cases "selected imp nm (selector nm opts)")
    from s assms(2) have "selection_bound imp1" by (rule selected_selection_bound)
    with assms NilVal SelectorVal s show ?thesis
      by (cases y) (auto simp add: Select_def Let_def split: if_splits)
  qed (use assms NilVal in \<open>auto simp add: Select_def Let_def\<close>)
qed (use assms in \<open>auto simp add: Select_def Let_def split: if_splits\<close>)

lemma exec_selection_bound:
  "exec pc b imp = Some (evs, x, imp') \<Longrightarrow> selection_bound imp \<Longrightarrow> selection_bound imp'"
proof (induction b arbitrary: imp evs x imp')
  case Return
  then show ?case by simp
next
  case (CallSelect nm opts k)
  obtain r imp1 where s: "Select imp nm opts = (r, imp1)"
    by (cases "Select imp nm opts")
  from s CallSelect.prems(2) have b1: "selection_bound imp1" by (rule Select_selection_bound)
  show ?case
  proof (cases r)
    case (Inl a)
    with CallSelect.prems s b1 show ?thesis by simp
  next
    case (Inr v)
    with CallSelect.prems s have "exec pc (k v) imp1 = Some (evs, x, imp')" by simp
    then show ?thesis using b1 by (rule CallSelect.IH [OF rangeI])
  qed
next
  case (CallParameter nm k)
  show ?case
  proof (cases "Parameter imp nm")
    case (Inl a)
    with CallParameter.prems show ?thesis by simp
  next
    case (Inr vb)
    with CallParameter.prems have "exec pc (k vb) imp = Some (evs, x, imp')" by simp
    then show ?thesis using CallParameter.prems(2) by (rule CallParameter.IH [OF rangeI])
  qed
next
  case (CallCtx k)
  then have "exec pc (k (Ctx imp)) imp = Some (evs, x, imp')" by simp
  then show ?case using CallCtx.prems(2) by (rule CallCtx.IH [OF rangeI])
next
  case (CallPlan nm fn rest)
  from CallPlan.prems(1) obtain e1 y where
    p: "testImpl_Plan pc imp nm fn = Some (e1, y)"
    by (auto split: option.splits)
  show ?case
  proof (cases y)
    case (Inl a)
    with CallPlan.prems p show ?thesis by simp
  next
    case (Inr u)
    with CallPlan.prems(1) p obtain e2 where
      "exec pc rest imp = Some (e2, x, imp')"
      by (auto split: option.splits)
    then show ?thesis using CallPlan.prems(2) by (rule CallPlan.IH(2))
  qed
next
  case (CallRun nm fn rest)
  let ?sub = "exec pc fn \<lparr>ctx = WithCancel (Ctx imp), parameterSelection = None\<rparr>"
  from CallRun.prems(1) obtain e1 y where
    p: "T_Run nm (run_closure ?sub) = Some (e1, y)"
    by (auto split: option.splits)
  show ?case
  proof (cases y)
    case (Inl a)
    with CallRun.prems p show ?thesis by simp
  next
    case (Inr u)
    with CallRun.prems(1) p obtain e2 where
      "exec pc rest imp = Some (e2, x, imp')"
      by (auto split: option.splits)
    then show ?thesis using CallRun.prems(2) by (rule CallRun.IH(2))
  qed
qed

lemma T_Run_not_fatal: "T_Run nm r \<noteq> Some (evs, Inl FailNow)"
  by (auto simp add: T_Run_def split: option.splits sum.splits abort.splits)

lemma planCtx_not_fatal: "plans_not_fatal (planCtx d)"
  by (cases d) (simp_all add: plans_not_fatal_def T_Run_not_fatal)

lemma andThen_not_fatal:
  assumes "\<And>e. r1 \<noteq> Some (e, Inl FailNow)" and "\<And>e. r2 \<noteq> Some (e, Inl FailNow)"
  shows "andThen r1 r2 \<noteq> Some (evs, Inl FailNow)"
proof (cases r1)
  case None
  then show ?thesis by (simp add: andThen_def)
next
  case (Some t)
  obtain e y where t: "t = (e, y)" by (cases t)
  show ?thesis
  proof (cases y)
    case (Inl a)
    with Some t assms(1) [of e] show ?thesis by (simp add: andThen_def)
  next
    case (Inr u)
    with Some t assms(2) show ?thesis by (auto simp add: andThen_def split: option.splits)
  qed
qed

lemma exhaust_loop_not_fatal:
  assumes "plans_not_fatal pc" and "Value c (parameterCtxKey (name sel)) = StringVal cur"
  shows "exhaust_loop pc c sel fn opts \<noteq> Some (evs, Inl FailNow)"
proof (induction opts arbitrary: evs)
  case Nil
  show ?case by simp
next
  case (Cons opt rest)
  show ?case
  proof (cases "cur = opt")
    case True
    with assms(2) Cons show ?thesis by simp
  next
    case False
    have "andThen (pc (WithValue c (parameterCtxKey (name sel)) (StringVal opt))
                      (''exhaust_'' @ name sel @ ''_'' @ opt) fn)
                  (exhaust_loop pc c sel fn rest) \<noteq> Some (evs, Inl FailNow)"
      using assms(1) Cons by (intro andThen_not_fatal) (simp_all add: plans_not_fatal_def)
    with assms(2) False show ?thesis by (simp add: Let_def)
  qed
qed

lemma exhaust_not_fatal:
  assumes "plans_not_fatal pc" and "selection_bound imp"
  shows "exhaust pc imp fn \<noteq> Some (evs, Inl FailNow)"
proof (cases "parameterSelection imp")
  case None
  then show ?thesis by (simp add: exhaust_def)
next
  case (Some sel)
  with assms(2) obtain cur where "Value (ctx imp) (parameterCtxKey (name sel)) = StringVal cur"
    by (cases "Value (ctx imp) (parameterCtxKey (name sel))") (simp_all add: selection_bound_def)
  with assms(1) have "exhaust_loop pc (Ctx imp) sel fn (options sel) \<noteq> Some (evs, Inl FailNow)"
    unfolding Ctx_def by (rule exhaust_loop_not_fatal)
  with Some show ?thesis by (simp add: exhaust_def)
qed

lemma exhaust_loop_unbound:
  "Value c (parameterCtxKey (name sel)) = NilVal \<Longrightarrow> opts \<noteq> [] \<Longrightarrow>
   exhaust_loop pc c sel fn opts = Some ([], Inl FailNow)"
  by (cases opts) simp_all

text \<open>
  C7. A scope that holds a record written by \<^verbatim>\<open>selected\<close>, in a context with no value
  for the recorded name, ends exhaustion with \<^verbatim>\<open>Fatalf\<close> before any sub-plan is started.
  And this cannot happen after a body has run: a scope starts without a record, every
  record the body's \<^verbatim>\<open>Select\<close> calls write comes with a binding of its name, so the
  exhaustion of the scope as the body left it never ends with \<^verbatim>\<open>Fatalf\<close>.
\<close>

theorem exhaust_unbound_fatal_unreachable:
  "(selected imp0 nm opts = (Inr (), imp1) \<and>
    parameterSelection imp = parameterSelection imp1 \<and>
    Value (ctx imp) (parameterCtxKey nm) = NilVal \<longrightarrow>
      exhaust pc imp fn = Some ([], Inl FailNow)) \<and>
   (exec (planCtx d) fn \<lparr>ctx = c, parameterSelection = None\<rparr> = Some (evs, x, subScope) \<longrightarrow>
      exhaust (planCtx d) subScope fn \<noteq> Some (evs', Inl FailNow))"
proof (intro conjI impI)
  assume a: "selected imp0 nm opts = (Inr (), imp1) \<and>
    parameterSelection imp = parameterSelection imp1 \<and>
    Value (ctx imp) (parameterCtxKey nm) = NilVal"
  then have "opts \<noteq> []" and "parameterSelection imp1 = Some \<lparr>name = nm, options = opts\<rparr>"
    by (auto simp add: selected_def split: if_splits anyVal.splits)
  with a show "exhaust pc imp fn = Some ([], Inl FailNow)"
    by (simp add: exhaust_def Ctx_def exhaust_loop_unbound)
next
  assume "exec (planCtx d) fn \<lparr>ctx = c, parameterSelection = None\<rparr> = Some (evs, x, subScope)"
  moreover have "selection_bound \<lparr>ctx = c, parameterSelection = None\<rparr>"
    by (simp add: selection_bound_def)
  ultimately have "selection_bound subScope" by (rule exec_selection_bound)
  with planCtx_not_fatal show "exhaust (planCtx d) subScope fn \<noteq> Some (evs', Inl FailNow)"
    by (rule exhaust_not_fatal)
qed

theorem exhaust_unbound_fatal_unreachable_witness:
  "selected (scopeOn (ctxWith (SelectorVal selectAll))) ''p'' [''a'', ''b'', ''c''] = (Inr (), scope_p_a) \<and>
   Value Background (parameterCtxKey ''p'') = NilVal \<and>
   exhaust (planCtx (Suc 0)) (scope_p_a\<lparr>ctx := Background\<rparr>) body_p_abc = Some ([], Inl FailNow) \<and>
   exec (planCtx (Suc 0)) body_p_abc
     \<lparr>ctx = ctxWith (SelectorVal selectAll), parameterSelection = None\<rparr> = Some ([], Inr (), scope_p_a) \<and>
   exhaust (planCtx (Suc 0)) scope_p_a body_p_abc \<noteq> Some (exhaust_trace_p_abc, Inl FailNow)"
proof -
  have h1: "selected (scopeOn (ctxWith (SelectorVal selectAll))) ''p'' [''a'', ''b'', ''c'']
      = (Inr (), scope_p_a)"
    by (simp add: selected_def scope_p_a_def fixture_defs)
  have h2: "Value Background (parameterCtxKey ''p'') = NilVal"
    by (simp add: Background_def)
  have h3: "exec (planCtx (Suc 0)) body_p_abc
      \<lparr>ctx = ctxWith (SelectorVal selectAll), parameterSelection = None\<rparr> = Some ([], Inr (), scope_p_a)"
    by (rule exec_body_p_abc_selectAll)
  show ?thesis
    using h1 h2 h3
      exhaust_unbound_fatal_unreachable [of "scopeOn (ctxWith (SelectorVal selectAll))" "''p''"
        "[''a'', ''b'', ''c'']" scope_p_a "scope_p_a\<lparr>ctx := Background\<rparr>" "planCtx (Suc 0)"
        body_p_abc "Suc 0" "ctxWith (SelectorVal selectAll)" "[]" "Inr ()" scope_p_a
        exhaust_trace_p_abc]
    by simp
qed

end
